theory Spec2Isabelle
  imports Main
begin

section \<open>JavaScript strings\<close>

text \<open>
  The module \<open>src/util/md/mod.ts\<close> works on JavaScript strings. A string is modelled as a
  \<open>char list\<close>; a \<open>char\<close> stands for one UTF-16 code unit in the range U+0000 to U+00FF
  (ASCII and Latin-1), so the character classes and the case mapping below are the
  ECMAScript ones cut down to that range.
\<close>

definition isWhiteSpace :: "char \<Rightarrow> bool" where
  \<comment> \<open>the class \<open>\s\<close> of a regular expression, and what \<open>trim\<close> strips:
      TAB, LF, VT, FF, CR, SPACE and NO-BREAK SPACE\<close>
  "isWhiteSpace c = (c \<in> set [CHR 0x09, CHR 0x0A, CHR 0x0B, CHR 0x0C, CHR 0x0D, CHR 0x20, CHR 0xA0])"

definition isLineTerminator :: "char \<Rightarrow> bool" where
  \<comment> \<open>the characters the pattern \<open>.\<close> does not match: LF and CR\<close>
  "isLineTerminator c = (c = CHR 0x0A \<or> c = CHR 0x0D)"

definition isWordChar :: "char \<Rightarrow> bool" where
  \<comment> \<open>the class \<open>\w\<close>: \<open>[A-Za-z0-9_]\<close>\<close>
  "isWordChar c =
     (let n = (of_char c :: nat)
      in (48 \<le> n \<and> n \<le> 57) \<or> (65 \<le> n \<and> n \<le> 90) \<or> n = 95 \<or> (97 \<le> n \<and> n \<le> 122))"

definition toLowerChar :: "char \<Rightarrow> char" where
  \<comment> \<open>\<open>A-Z\<close> and the Latin-1 capitals U+00C0 to U+00DE (U+00D7 is the multiplication sign)
      move up by 32; every other code unit of the range is its own lower case\<close>
  "toLowerChar c =
     (let n = (of_char c :: nat)
      in if (65 \<le> n \<and> n \<le> 90) \<or> (192 \<le> n \<and> n \<le> 222 \<and> n \<noteq> 215) then char_of (n + 32) else c)"

definition toLowerCase :: "string \<Rightarrow> string" where
  "toLowerCase s = map toLowerChar s"

definition trim :: "string \<Rightarrow> string" where
  "trim s = rev (dropWhile isWhiteSpace (rev (dropWhile isWhiteSpace s)))"

text \<open>
  \<open>String.prototype.split\<close> with a string separator: the occurrences of the separator are
  found from left to right and do not overlap. \<open>cur\<close> is the segment being collected. With
  the empty separator the string is cut into its code units.
\<close>

function splitFrom :: "string \<Rightarrow> string \<Rightarrow> string \<Rightarrow> string list" where
  "splitFrom sep cur [] = [cur]"
| "splitFrom sep cur (c # cs) =
     (if take (length sep) (c # cs) = sep
      then cur # splitFrom sep [] (drop (length sep - 1) cs)
      else splitFrom sep (cur @ [c]) cs)"
  by pat_completeness auto
termination
  by (relation "measure (\<lambda>(sep, cur, s). length s)") auto

definition split :: "string \<Rightarrow> string \<Rightarrow> string list" where
  "split sep s = (if sep = [] then map (\<lambda>c. [c]) s else splitFrom sep [] s)"

fun join :: "string \<Rightarrow> string list \<Rightarrow> string" where
  "join sep [] = []"
| "join sep [x] = x"
| "join sep (x # y # ys) = x @ sep @ join sep (y # ys)"

definition at :: "'a list \<Rightarrow> int \<Rightarrow> 'a option" where
  \<comment> \<open>\<open>Array.prototype.at\<close>: a negative index counts from the end, an index out of range
      gives \<open>undefined\<close>\<close>
  "at xs i =
     (let k = (if i < 0 then int (length xs) + i else i)
      in if 0 \<le> k \<and> k < int (length xs) then Some (xs ! nat k) else None)"

definition slice :: "nat \<Rightarrow> 'a list \<Rightarrow> 'a list" where
  \<comment> \<open>\<open>Array.prototype.slice(start)\<close> for a start that is not negative\<close>
  "slice start xs = drop start xs"

definition truthy :: "string option \<Rightarrow> bool" where
  \<comment> \<open>a string or \<open>undefined\<close> is truthy when it is a non-empty string\<close>
  "truthy v = (case v of None \<Rightarrow> False | Some s \<Rightarrow> s \<noteq> [])"

section \<open>Regular expressions of the heading scanner\<close>

definition codeFenceRegex_test :: "string \<Rightarrow> bool" where
  \<comment> \<open>\<open>/^```/.test(line)\<close>\<close>
  "codeFenceRegex_test line = (take 3 line = [CHR 0x60, CHR 0x60, CHR 0x60])"

text \<open>
  \<open>/^(#{1,6})\s*(.+)/\<close> is matched by a backtracking matcher, as the ECMAScript semantics
  runs it: each quantifier is greedy and gives characters back, the innermost one first,
  when the rest of the pattern fails. \<open>matchDot\<close> is \<open>(.+)\<close>, \<open>matchSpaces j\<close> tries \<open>\s\<close> taken
  \<open>j\<close> times, then \<open>j - 1\<close> times, and so on; \<open>matchHashes k\<close> does the same for \<open>#\<close>. The
  result is the match array: the whole match and the two groups.
\<close>

definition matchDot :: "string \<Rightarrow> string option" where
  "matchDot s =
     (let g = takeWhile (\<lambda>c. \<not> isLineTerminator c) s in if g = [] then None else Some g)"

fun matchSpaces :: "nat \<Rightarrow> string \<Rightarrow> (string \<times> string) option" where
  "matchSpaces 0 s = (case matchDot s of None \<Rightarrow> None | Some g \<Rightarrow> Some ([], g))"
| "matchSpaces (Suc j) s =
     (case matchDot (drop (Suc j) s) of
        Some g \<Rightarrow> Some (take (Suc j) s, g)
      | None \<Rightarrow> matchSpaces j s)"

fun matchHashes :: "nat \<Rightarrow> string \<Rightarrow> string list option" where
  "matchHashes 0 line = None"
| "matchHashes (Suc k) line =
     (let rest = drop (Suc k) line
      in case matchSpaces (length (takeWhile isWhiteSpace rest)) rest of
           Some (ws, g) \<Rightarrow> Some [take (Suc k) line @ ws @ g, take (Suc k) line, g]
         | None \<Rightarrow> matchHashes k line)"

definition headingRegex_exec :: "string \<Rightarrow> string list option" where
  "headingRegex_exec line =
     matchHashes (min 6 (length (takeWhile (\<lambda>c. c = CHR ''#'') line))) line"

section \<open>The heading scanner\<close>

record Heading =
  id' :: string
  level :: nat
  name :: string

text \<open>
  \<open>s.replace(/C+/g, rep)\<close> for a character class \<open>C\<close>: every maximal run of characters of
  the class is replaced by \<open>rep\<close>.
\<close>

function replaceRuns :: "(char \<Rightarrow> bool) \<Rightarrow> string \<Rightarrow> string \<Rightarrow> string" where
  "replaceRuns C rep [] = []"
| "replaceRuns C rep (c # cs) =
     (if C c then rep @ replaceRuns C rep (dropWhile C cs) else c # replaceRuns C rep cs)"
  by pat_completeness auto
termination
  by (relation "measure (\<lambda>(C, rep, s). length s)") (auto simp: length_dropWhile_le less_Suc_eq_le)

definition headingId :: "string \<Rightarrow> string" where
  \<comment> \<open>\<open>name.trim().toLowerCase().replace(/\s+/g, "-").replace(/[^\w-]+/g, "")\<close>\<close>
  "headingId nm =
     replaceRuns (\<lambda>c. \<not> (isWordChar c \<or> c = CHR ''-'')) []
       (replaceRuns isWhiteSpace ''-'' (toLowerCase (trim nm)))"

text \<open>
  One turn of the loop of \<open>getHeadings\<close>, on the loop's state: the flag \<open>inCodeFence\<close> and
  the array \<open>headings\<close>. \<open>continue\<close> leaves the turn with the state as it is then.
\<close>

definition scanLine :: "string \<Rightarrow> bool \<times> Heading list \<Rightarrow> bool \<times> Heading list" where
  "scanLine line0 st =
     (let inCodeFence = fst st; headings = snd st; line = trim line0
      in if codeFenceRegex_test line then (\<not> inCodeFence, headings)
         else if inCodeFence then (inCodeFence, headings)
         else (case headingRegex_exec line of
                 None \<Rightarrow> (inCodeFence, headings)
               | Some match \<Rightarrow>
                   (let level = map_option length (at match 1); name = at match 2
                    in case (level, name) of
                         (Some l, Some n) \<Rightarrow>
                           if l \<noteq> 0 \<and> n \<noteq> []
                           then (inCodeFence, headings @ [\<lparr>id' = headingId n, level = l, name = n\<rparr>])
                           else (inCodeFence, headings)
                       | _ \<Rightarrow> (inCodeFence, headings))))"

definition getHeadings :: "string \<Rightarrow> Heading list" where
  "getHeadings md = snd (fold scanLine (split [CHR 0x0A] md) (False, []))"

section \<open>Frontmatter\<close>

text \<open>
  The YAML loader, the schema validator, the markdown renderer and the two highlighters
  are libraries: they are parameters of the model. A call of a library that throws returns
  \<open>Inl\<close>. A schema is its \<open>safeParse\<close>: the parsed data, or the list of issues.
\<close>

datatype ('i, 'x) error =
    NoYamlFound                      \<comment> \<open>\<open>Error("No yaml found. ...")\<close>\<close>
  | InvalidFrontmatter "'i option"   \<comment> \<open>\<open>Error("Invalid frontmatter, ...")\<close> with \<open>issues[0]\<close>\<close>
  | External 'x                      \<comment> \<open>an exception of a library, passed on\<close>

type_synonym ('v, 'i, 'd) schema = "'v \<Rightarrow> 'i list + 'd"

definition getFrontmatter ::
  "(string \<Rightarrow> 'x + 'v) \<Rightarrow> string \<Rightarrow> ('v, 'i, 'd) schema \<Rightarrow> ('i, 'x) error + 'd" where
  "getFrontmatter load yaml frontmatterSchema =
     (case load yaml of
        Inl e \<Rightarrow> Inl (External e)
      | Inr loaded \<Rightarrow>
          (case frontmatterSchema loaded of
             Inl issues \<Rightarrow> Inl (InvalidFrontmatter (at issues 0))
           | Inr data \<Rightarrow> Inr data))"

section \<open>Highlighting\<close>

type_synonym 'x highlighter = "string \<Rightarrow> string \<Rightarrow> 'x + string"

definition hljsHighlight ::
  "(string \<Rightarrow> bool) \<Rightarrow> (string \<Rightarrow> string \<Rightarrow> 'x + string) \<Rightarrow> 'x highlighter" where
  \<comment> \<open>the \<open>highlight\<close> callback registered by the module of \<open>process\<close>;
      \<open>getLanguage\<close> and \<open>highlight\<close> are those of \<open>highlight.js\<close>\<close>
  "hljsHighlight getLanguage highlight code lang =
     (let language = (if getLanguage lang then lang
                      else if lang = ''svelte'' then ''html''
                      else ''plaintext'')
      in highlight code language)"

datatype 'a jsValue = Undefined | Str string | Other 'a

type_synonym 'a jsObject = "string \<rightharpoonup> 'a jsValue"

definition objectAssign :: "'a jsObject \<Rightarrow> 'a jsObject option \<Rightarrow> 'a jsObject" where
  \<comment> \<open>\<open>Object.assign(target, source)\<close>; a source that is \<open>undefined\<close> is skipped\<close>
  "objectAssign target source = (case source of None \<Rightarrow> target | Some src \<Rightarrow> target ++ src)"

definition shikiHighlight ::
  "(string \<Rightarrow> 'a jsObject \<Rightarrow> 'x + string) \<Rightarrow> 'a jsObject option \<Rightarrow> 'x highlighter" where
  \<comment> \<open>the \<open>highlight\<close> callback of \<open>processMarkdown\<close>; \<open>codeToHtml\<close> is that of \<open>shiki\<close>\<close>
  "shikiHighlight codeToHtml shiki code lang =
     (let options = [''lang'' \<mapsto> Str lang, ''theme'' \<mapsto> Str ''github-dark-default''];
          options = objectAssign options shiki
      in codeToHtml code options)"

section \<open>The entry points\<close>

datatype 'd frontmatterValue =
    Absent        \<comment> \<open>the property was never set (\<open>process\<close> without a schema)\<close>
  | EmptyObject   \<comment> \<open>\<open>{}\<close>\<close>
  | Parsed 'd

record 'd Data =
  article :: string
  headings :: "Heading list"
  html :: string
  frontmatter :: "'d frontmatterValue"

text \<open>
  \<open>parse\<close> is \<open>marked.parse\<close>, given the highlight callback the renderer was configured
  with. \<open>process\<close> renders before it looks at the schema; \<open>processMarkdown\<close> reads the
  frontmatter first.
\<close>

definition process ::
  "('x highlighter \<Rightarrow> string \<Rightarrow> 'x + string) \<Rightarrow> (string \<Rightarrow> bool) \<Rightarrow>
   (string \<Rightarrow> string \<Rightarrow> 'x + string) \<Rightarrow> (string \<Rightarrow> 'x + 'v) \<Rightarrow>
   string \<Rightarrow> ('v, 'i, 'd) schema option \<Rightarrow> ('i, 'x) error + 'd Data" where
  "process parse getLanguage highlight load md frontmatterSchema =
     (let splt = split ''---'' md;
          yaml = at splt 1;
          article = (if truthy yaml then join ''---'' (slice 2 splt) else md);
          headings = getHeadings article
      in case parse (hljsHighlight getLanguage highlight) article of
           Inl e \<Rightarrow> Inl (External e)
         | Inr rendered \<Rightarrow>
             (let data = \<lparr>article = article, headings = headings, html = rendered,
                          frontmatter = Absent\<rparr>
              in case frontmatterSchema of
                   None \<Rightarrow> Inr data
                 | Some schema \<Rightarrow>
                     if \<not> truthy yaml then Inl NoYamlFound
                     else (case getFrontmatter load (the yaml) schema of
                             Inl e \<Rightarrow> Inl e
                           | Inr fm \<Rightarrow> Inr (data\<lparr>frontmatter := Parsed fm\<rparr>))))"

definition processMarkdown ::
  "('x highlighter \<Rightarrow> string \<Rightarrow> 'x + string) \<Rightarrow> (string \<Rightarrow> 'a jsObject \<Rightarrow> 'x + string) \<Rightarrow>
   (string \<Rightarrow> 'x + 'v) \<Rightarrow>
   string \<Rightarrow> 'a jsObject option \<Rightarrow> ('v, 'i, 'd) schema option \<Rightarrow> ('i, 'x) error + 'd Data" where
  "processMarkdown parse codeToHtml load md shiki frontmatterSchema =
     (let splt = split ''---'' md;
          yaml = at splt 1;
          shouldProcessFrontmatter = (truthy yaml \<and> frontmatterSchema \<noteq> None);
          article = (if shouldProcessFrontmatter then join ''---'' (slice 2 splt) else md)
      in case (if shouldProcessFrontmatter
               then map_sum id Parsed (getFrontmatter load (the yaml) (the frontmatterSchema))
               else Inr EmptyObject) of
           Inl e \<Rightarrow> Inl e
         | Inr fm \<Rightarrow>
             (let headings = getHeadings article
              in case parse (shikiHighlight codeToHtml shiki) article of
                   Inl e \<Rightarrow> Inl (External e)
                 | Inr rendered \<Rightarrow>
                     Inr \<lparr>article = article, headings = headings, html = rendered,
                          frontmatter = fm\<rparr>))"


section \<open>Predicates used in the statements\<close>

definition fenceLine :: "string \<Rightarrow> bool" where
  \<comment> \<open>the test of the scanner's first \<open>if\<close>, on a line as the loop reads it\<close>
  "fenceLine l = codeFenceRegex_test (trim l)"

definition wellFormed :: "Heading \<Rightarrow> bool" where
  "wellFormed h = (id' h = headingId (name h) \<and> 1 \<le> level h \<and> level h \<le> 6 \<and> name h \<noteq> [])"

section \<open>Stand-ins for the libraries\<close>

text \<open>
  Concrete libraries, to run the entry points on examples: a renderer that returns the
  article as it is, a highlighter that knows three languages and fails on any other, a
  loader that returns the text of the block, and a schema that accepts the value
  \<open>"meta"\<close> alone and reports two issues otherwise.
\<close>

definition exampleParse :: "unit highlighter \<Rightarrow> string \<Rightarrow> unit + string" where
  "exampleParse highlight text = Inr text"

definition exampleGetLanguage :: "string \<Rightarrow> bool" where
  "exampleGetLanguage lang = (lang = ''html'' \<or> lang = ''plaintext'' \<or> lang = ''javascript'')"

definition exampleHljs :: "string \<Rightarrow> string \<Rightarrow> unit + string" where
  "exampleHljs code language =
     (if exampleGetLanguage language then Inr (language @ '':'' @ code) else Inl ())"

definition exampleCodeToHtml :: "string \<Rightarrow> unit jsObject \<Rightarrow> unit + string" where
  "exampleCodeToHtml code options =
     (case options ''lang'' of
        Some (Str l) \<Rightarrow> if exampleGetLanguage l then Inr (l @ '':'' @ code) else Inl ()
      | _ \<Rightarrow> Inl ())"

definition exampleLoad :: "string \<Rightarrow> unit + string" where
  "exampleLoad yaml = Inr yaml"

definition exampleSchema :: "(string, string, string) schema" where
  "exampleSchema v = (if v = ''meta'' then Inr v else Inl [''first issue'', ''second issue''])"

section \<open>Properties of the string primitives and the scanner\<close>

lemma scanLine_fence: "fenceLine l \<Longrightarrow> scanLine l (b, hs) = (\<not> b, hs)"
  by (simp add: scanLine_def fenceLine_def)

lemma scanLine_inside: "\<not> fenceLine l \<Longrightarrow> scanLine l (True, hs) = (True, hs)"
  by (simp add: scanLine_def fenceLine_def)

lemma fst_scanLine: "fst (scanLine l st) = (if fenceLine l then \<not> fst st else fst st)"
  by (simp add: scanLine_def fenceLine_def Let_def split: option.splits)

lemma fold_inside: "\<forall>l\<in>set ls. \<not> fenceLine l \<Longrightarrow> fold scanLine ls (True, hs) = (True, hs)"
  by (induction ls) (simp_all add: scanLine_inside)

lemma fst_fold: "fst (fold scanLine ls st) = (fst st \<noteq> odd (length (filter fenceLine ls)))"
  by (induction ls arbitrary: st) (auto simp: fst_scanLine)

lemma matchDot_Some: "matchDot s = Some g \<Longrightarrow> g \<noteq> [] \<and> s \<noteq> []"
  by (auto simp: matchDot_def Let_def split: if_splits)

lemma matchSpaces_Some: "matchSpaces j s = Some (ws, g) \<Longrightarrow> g \<noteq> [] \<and> s \<noteq> []"
  by (induction j) (auto split: option.splits dest: matchDot_Some)

lemma matchHashes_Some:
  "matchHashes k line = Some m \<Longrightarrow>
   \<exists>w g1 g2. m = [w, g1, g2] \<and> 1 \<le> length g1 \<and> length g1 \<le> k \<and> g2 \<noteq> []"
proof (induction k)
  case 0
  then show ?case by simp
next
  case (Suc k)
  show ?case
  proof (cases "matchSpaces (length (takeWhile isWhiteSpace (drop (Suc k) line))) (drop (Suc k) line)")
    case None
    with Suc show ?thesis by (fastforce simp: Let_def)
  next
    case (Some p)
    obtain ws g where p: "p = (ws, g)" by (cases p)
    from Some p have g: "g \<noteq> []" and d: "drop (Suc k) line \<noteq> []"
      using matchSpaces_Some by blast+
    from d have "Suc k < length line" by simp
    with Suc.prems Some p g show ?thesis by (auto simp: Let_def)
  qed
qed

lemma filter_dropWhile_not: "filter (\<lambda>c. \<not> C c) (dropWhile C cs) = filter (\<lambda>c. \<not> C c) cs"
  by (induction cs) auto

lemma replaceRuns_remove: "replaceRuns C [] s = filter (\<lambda>c. \<not> C c) s"
  by (induction C "[] :: string" s rule: replaceRuns.induct) (auto simp: filter_dropWhile_not)

lemma replaceRuns_none: "\<forall>c\<in>set s. \<not> C c \<Longrightarrow> replaceRuns C rep s = s"
  by (induction s) auto

lemma set_replaceRuns: "set (replaceRuns C rep s) \<subseteq> set rep \<union> set s"
proof (induction C rep s rule: replaceRuns.induct)
  case (1 C rep)
  then show ?case by simp
next
  case (2 C rep c cs)
  have "set (dropWhile C cs) \<subseteq> set cs" by (simp add: set_dropWhileD subsetI)
  with 2 show ?case by auto
qed

lemma toLowerChar_idem: "toLowerChar (toLowerChar c) = toLowerChar c"
  by (auto simp: toLowerChar_def Let_def)

lemma word_not_space: "isWordChar c \<or> c = CHR ''-'' \<Longrightarrow> \<not> isWhiteSpace c"
  by (auto simp: isWordChar_def isWhiteSpace_def Let_def)



lemma headingRegex_exec_Some:
  "headingRegex_exec line = Some m \<Longrightarrow>
   \<exists>w g1 g2. m = [w, g1, g2] \<and> 1 \<le> length g1 \<and> length g1 \<le> 6 \<and> g2 \<noteq> []"
  unfolding headingRegex_exec_def by (drule matchHashes_Some) auto

lemma scanLine_wellFormed:
  assumes "\<forall>h\<in>set (snd st). wellFormed h"
  shows "\<forall>h\<in>set (snd (scanLine l st)). wellFormed h"
proof (cases "headingRegex_exec (trim l)")
  case None
  with assms show ?thesis by (simp add: scanLine_def Let_def)
next
  case (Some m)
  then obtain w g1 g2 where m: "m = [w, g1, g2]" "1 \<le> length g1" "length g1 \<le> 6" "g2 \<noteq> []"
    using headingRegex_exec_Some by blast
  with Some assms show ?thesis
    by (auto simp: scanLine_def Let_def at_def wellFormed_def)
qed

lemma fold_wellFormed:
  "\<forall>h\<in>set (snd st). wellFormed h \<Longrightarrow> \<forall>h\<in>set (snd (fold scanLine ls st)). wellFormed h"
proof (induction ls arbitrary: st)
  case Nil
  then show ?case by simp
next
  case (Cons l ls)
  from Cons.prems have "\<forall>h\<in>set (snd (scanLine l st)). wellFormed h"
    by (rule scanLine_wellFormed)
  then show ?case using Cons.IH by simp
qed

lemma getHeadings_wellFormed: "h \<in> set (getHeadings md) \<Longrightarrow> wellFormed h"
  using fold_wellFormed [of "(False, [])" "split [CHR 0x0A] md"] by (simp add: getHeadings_def)

lemma headingId_chars: "c \<in> set (headingId n) \<Longrightarrow> isWordChar c \<or> c = CHR ''-''"
  by (auto simp: headingId_def replaceRuns_remove)

lemma headingId_fixed:
  assumes "\<forall>c\<in>set s. (isWordChar c \<or> c = CHR ''-'') \<and> toLowerChar c = c"
  shows "headingId s = s"
proof -
  from assms have ns: "\<forall>c\<in>set s. \<not> isWhiteSpace c" using word_not_space by blast
  have t: "trim s = s"
  proof (cases s rule: rev_cases)
    case Nil then show ?thesis by (simp add: trim_def)
  next
    case (snoc ys y)
    with ns have "\<not> isWhiteSpace y" by simp
    moreover from ns have "dropWhile isWhiteSpace s = s" by (cases s) auto
    ultimately show ?thesis using snoc by (simp add: trim_def)
  qed
  from assms have l: "toLowerCase s = s" by (simp add: toLowerCase_def map_idI)
  from ns have r: "replaceRuns isWhiteSpace ''-'' s = s" by (rule replaceRuns_none)
  from assms have f: "filter (\<lambda>c. \<not> \<not> (isWordChar c \<or> c = CHR ''-'')) s = s" by (simp add: filter_id_conv)
  show ?thesis unfolding headingId_def t l r replaceRuns_remove using f by simp
qed

lemma headingId_lower: "c \<in> set (headingId n) \<Longrightarrow> toLowerChar c = c"
proof -
  assume "c \<in> set (headingId n)"
  then have "c \<in> set (replaceRuns isWhiteSpace ''-'' (toLowerCase (trim n)))"
    by (auto simp: headingId_def replaceRuns_remove)
  then have "c \<in> set ''-'' \<union> set (toLowerCase (trim n))" using set_replaceRuns by blast
  then show ?thesis
    by (auto simp: toLowerCase_def toLowerChar_idem) (simp add: toLowerChar_def)
qed

lemma headingId_idem: "headingId (headingId n) = headingId n"
  by (rule headingId_fixed) (use headingId_chars headingId_lower in blast)


lemma seven_hashes:
  assumes "trim line = replicate 7 (CHR ''#'') @ r"
  shows "scanLine line (False, hs) =
       (False, hs @ [\<lparr>id' = headingId (CHR ''#'' # takeWhile (\<lambda>c. \<not> isLineTerminator c) r),
                      level = 6,
                      name = CHR ''#'' # takeWhile (\<lambda>c. \<not> isLineTerminator c) r\<rparr>])"
proof -
  have tl: "trim line = ''######'' @ (CHR ''#'' # r)" using assms by (simp add: numeral_eq_Suc)
  have nf: "\<not> codeFenceRegex_test (trim line)" by (simp add: tl codeFenceRegex_test_def)
  have "length (takeWhile (\<lambda>c. c = CHR ''#'') (trim line)) \<ge> 7"
    by (simp add: tl)
  then have m: "min 6 (length (takeWhile (\<lambda>c. c = CHR ''#'') (trim line))) = 6" by simp
  have ws: "\<not> isWhiteSpace (CHR ''#'')" by (simp add: isWhiteSpace_def)
  have lt: "\<not> isLineTerminator (CHR ''#'')" by (simp add: isLineTerminator_def)
  have ex: "headingRegex_exec (trim line) =
     Some [''######'' @ (CHR ''#'' # takeWhile (\<lambda>c. \<not> isLineTerminator c) r), ''######'',
           CHR ''#'' # takeWhile (\<lambda>c. \<not> isLineTerminator c) r]"
    unfolding headingRegex_exec_def m by (simp add: tl ws lt matchDot_def Let_def eval_nat_numeral)
  show ?thesis by (simp add: scanLine_def nf ex at_def Let_def)
qed


lemma fold_pre_fence:
  assumes "even (length (filter fenceLine pre))" "fenceLine fence" "\<forall>l\<in>set body. \<not> fenceLine l"
  shows "fold scanLine (pre @ fence # body) (False, []) = (True, snd (fold scanLine pre (False, [])))"
proof -
  have "fst (fold scanLine pre (False, [])) = False" using assms(1) by (simp add: fst_fold)
  then have p: "fold scanLine pre (False, []) = (False, snd (fold scanLine pre (False, [])))"
    by (metis prod.collapse)
  have "fold scanLine (pre @ fence # body) (False, []) =
        fold scanLine body (scanLine fence (fold scanLine pre (False, [])))"
    by simp
  also have "\<dots> = fold scanLine body (True, snd (fold scanLine pre (False, [])))"
    using p scanLine_fence [OF assms(2)] by metis
  also have "\<dots> = (True, snd (fold scanLine pre (False, [])))"
    using assms(3) by (rule fold_inside)
  finally show ?thesis .
qed

subsection \<open>Splitting, and the entry points\<close>

lemma splitFrom_not_Nil: "splitFrom sep cur s \<noteq> []"
  by (induction sep cur s rule: splitFrom.induct) auto

lemma join_Cons: "ys \<noteq> [] \<Longrightarrow> join sep (x # ys) = x @ sep @ join sep ys"
  by (cases ys) simp_all

lemma join_splitFrom: "sep \<noteq> [] \<Longrightarrow> join sep (splitFrom sep cur s) = cur @ s"
proof (induction sep cur s rule: splitFrom.induct)
  case (1 sep cur)
  then show ?case by simp
next
  case (2 sep cur c cs)
  show ?case
  proof (cases "take (length sep) (c # cs) = sep")
    case True
    have d: "drop (length sep - 1) cs = drop (length sep) (c # cs)"
      using "2.prems" by (cases sep) simp_all
    have "join sep (splitFrom sep cur (c # cs)) =
          cur @ sep @ join sep (splitFrom sep [] (drop (length sep - 1) cs))"
      using True by (simp add: join_Cons splitFrom_not_Nil)
    also have "\<dots> = cur @ sep @ drop (length sep - 1) cs"
      using "2.IH"(1) [OF True "2.prems"] by simp
    also have "\<dots> = cur @ take (length sep) (c # cs) @ drop (length sep) (c # cs)"
      using True d by simp
    finally show ?thesis by (simp only: append_take_drop_id)
  next
    case False
    with 2 show ?thesis by simp
  qed
qed

lemma join_split: "sep \<noteq> [] \<Longrightarrow> join sep (split sep s) = s"
  by (simp add: split_def join_splitFrom)

lemma split_block:
  assumes "split ''---'' md = s0 # y # rest" "rest \<noteq> []"
  shows "md = s0 @ ''---'' @ y @ ''---'' @ join ''---'' rest"
proof -
  have "md = join ''---'' (split ''---'' md)" by (simp add: join_split)
  also have "\<dots> = s0 @ ''---'' @ y @ ''---'' @ join ''---'' rest"
    using assms by (simp add: join_Cons)
  finally show ?thesis .
qed

lemma process_article:
  "process parse gl hl load md schema = Inr d \<Longrightarrow>
   article d = (if truthy (at (split ''---'' md) 1)
                then join ''---'' (slice 2 (split ''---'' md)) else md)"
  by (auto simp: process_def Let_def split: sum.splits option.splits if_splits)

lemma processMarkdown_article:
  "processMarkdown parse c load md shiki schema = Inr d \<Longrightarrow>
   article d = (if truthy (at (split ''---'' md) 1) \<and> schema \<noteq> None
                then join ''---'' (slice 2 (split ''---'' md)) else md)"
  by (auto simp: processMarkdown_def Let_def split: sum.splits option.splits if_splits)

lemma processMarkdown_no_schema:
  "processMarkdown parse c load md shiki None =
     (case parse (shikiHighlight c shiki) md of
        Inl e \<Rightarrow> Inl (External e)
      | Inr h \<Rightarrow> Inr \<lparr>article = md, headings = getHeadings md, html = h,
                       frontmatter = EmptyObject\<rparr>)"
  by (simp add: processMarkdown_def Let_def split: sum.splits)

lemma processMarkdown_no_yaml:
  "\<not> truthy (at (split ''---'' md) 1) \<Longrightarrow>
   processMarkdown parse c load md shiki schema =
     (case parse (shikiHighlight c shiki) md of
        Inl e \<Rightarrow> Inl (External e)
      | Inr h \<Rightarrow> Inr \<lparr>article = md, headings = getHeadings md, html = h,
                       frontmatter = EmptyObject\<rparr>)"
  by (simp add: processMarkdown_def Let_def split: sum.splits)

lemma process_no_yaml:
  "\<not> truthy (at (split ''---'' md) 1) \<Longrightarrow>
   process parse gl hl load md (Some sc) =
     (case parse (hljsHighlight gl hl) md of
        Inl e \<Rightarrow> Inl (External e)
      | Inr h \<Rightarrow> Inl NoYamlFound)"
  by (simp add: process_def Let_def split: sum.splits)

lemma example_process_none:
  "process exampleParse exampleGetLanguage exampleHljs exampleLoad ''---meta---body''
     (None :: (string, string, string) schema option) =
   Inr \<lparr>article = ''body'', headings = [], html = ''body'', frontmatter = Absent\<rparr>"
proof -
  have s: "split ''---'' ''---meta---body'' = [[], ''meta'', ''body'']" by code_simp
  have g: "getHeadings ''body'' = []" by code_simp
  show ?thesis unfolding process_def s
    by (simp add: at_def truthy_def slice_def g exampleParse_def Let_def)
qed

lemma example_process_schema:
  "process exampleParse exampleGetLanguage exampleHljs exampleLoad ''---meta---body''
     (Some exampleSchema) =
   Inr \<lparr>article = ''body'', headings = [], html = ''body'', frontmatter = Parsed ''meta''\<rparr>"
proof -
  have s: "split ''---'' ''---meta---body'' = [[], ''meta'', ''body'']" by code_simp
  have g: "getHeadings ''body'' = []" by code_simp
  show ?thesis unfolding process_def s
    by (simp add: at_def truthy_def slice_def g exampleParse_def Let_def getFrontmatter_def
        exampleLoad_def exampleSchema_def)
qed

lemma example_processMarkdown_schema:
  "processMarkdown exampleParse exampleCodeToHtml exampleLoad ''---meta---body'' None
     (Some exampleSchema) =
   Inr \<lparr>article = ''body'', headings = [], html = ''body'', frontmatter = Parsed ''meta''\<rparr>"
proof -
  have s: "split ''---'' ''---meta---body'' = [[], ''meta'', ''body'']" by code_simp
  have g: "getHeadings ''body'' = []" by code_simp
  show ?thesis unfolding processMarkdown_def s
    by (simp add: at_def truthy_def slice_def g exampleParse_def Let_def getFrontmatter_def
        exampleLoad_def exampleSchema_def)
qed

lemma example_processMarkdown_none:
  "processMarkdown exampleParse exampleCodeToHtml exampleLoad ''---meta---body'' None
     (None :: (string, string, string) schema option) =
   Inr \<lparr>article = ''---meta---body'', headings = [], html = ''---meta---body'',
         frontmatter = EmptyObject\<rparr>"
proof -
  have g: "getHeadings ''---meta---body'' = []" by code_simp
  show ?thesis by (simp add: processMarkdown_no_schema exampleParse_def g)
qed

section \<open>The claims\<close>

text \<open>
  C9. For every input text, every heading \<open>getHeadings\<close> returns has a level between 1 and
  6, a non-empty name, and an id made of word characters and hyphens only. A line that is
  outside a fence and, once trimmed, starts with seven hashes gives a heading of level 6:
  group 1 stops at six hashes and the seventh hash opens the name.
\<close>

theorem heading_invariants:
  "(\<forall>h\<in>set (getHeadings md).
       1 \<le> level h \<and> level h \<le> 6 \<and> name h \<noteq> [] \<and>
       (\<forall>c\<in>set (id' h). isWordChar c \<or> c = CHR ''-''))
   \<and> (trim line = replicate 7 (CHR ''#'') @ r \<longrightarrow>
        scanLine line (False, hs) =
          (False, hs @ [\<lparr>id' = headingId (CHR ''#'' # takeWhile (\<lambda>c. \<not> isLineTerminator c) r),
                         level = 6,
                         name = CHR ''#'' # takeWhile (\<lambda>c. \<not> isLineTerminator c) r\<rparr>]))"
proof (intro conjI ballI impI)
  fix h assume h: "h \<in> set (getHeadings md)"
  then have w: "wellFormed h" by (rule getHeadings_wellFormed)
  from w show "1 \<le> level h" "level h \<le> 6" "name h \<noteq> []" by (simp_all add: wellFormed_def)
  fix c assume "c \<in> set (id' h)"
  with w show "isWordChar c \<or> c = CHR ''-''" using headingId_chars by (simp add: wellFormed_def)
next
  assume "trim line = replicate 7 (CHR ''#'') @ r"
  then show "scanLine line (False, hs) =
          (False, hs @ [\<lparr>id' = headingId (CHR ''#'' # takeWhile (\<lambda>c. \<not> isLineTerminator c) r),
                         level = 6,
                         name = CHR ''#'' # takeWhile (\<lambda>c. \<not> isLineTerminator c) r\<rparr>])"
    by (rule seven_hashes)
qed

theorem heading_invariants_witness:
  "\<lparr>id' = ''-title'', level = 6, name = ''# Title''\<rparr> \<in> set (getHeadings ''####### Title'')
   \<and> level \<lparr>id' = ''-title'', level = 6, name = ''# Title''\<rparr> \<le> 6
   \<and> CHR ''t'' \<in> set ''-title'' \<and> isWordChar CHR ''t''
   \<and> trim ''  ####### Title '' = replicate 7 (CHR ''#'') @ '' Title''
   \<and> scanLine ''  ####### Title '' (False, []) =
        (False, [\<lparr>id' = ''-title'', level = 6, name = ''# Title''\<rparr>])"
proof -
  have g: "getHeadings ''####### Title'' = [\<lparr>id' = ''-title'', level = 6, name = ''# Title''\<rparr>]"
    by code_simp
  have t: "trim ''  ####### Title '' = replicate 7 (CHR ''#'') @ '' Title''" by code_simp
  have i: "headingId ''# Title'' = ''-title''" by code_simp
  have lt: "takeWhile (\<lambda>c. \<not> isLineTerminator c) '' Title'' = '' Title''" by code_simp
  have m: "\<lparr>id' = ''-title'', level = 6, name = ''# Title''\<rparr> \<in> set (getHeadings ''####### Title'')"
    by (simp add: g)
  have c: "CHR ''t'' \<in> set (id' \<lparr>id' = ''-title'', level = 6, name = ''# Title''\<rparr>)" by simp
  note inst = heading_invariants [of "''####### Title''" "''  ####### Title ''" "'' Title''" "[]"]
  from inst m have "level \<lparr>id' = ''-title'', level = 6, name = ''# Title''\<rparr> \<le> 6" by blast
  moreover from inst m c have "isWordChar CHR ''t'' \<or> CHR ''t'' = CHR ''-''" by blast
  moreover from inst t have "scanLine ''  ####### Title '' (False, []) =
        (False, [\<lparr>id' = ''-title'', level = 6, name = ''# Title''\<rparr>])"
    by (simp only: i lt append_Nil simp_thms)
  ultimately show ?thesis using m t by simp
qed

text \<open>
  C6. The id of every returned heading is \<open>headingId\<close> of its name: the name trimmed and
  lowercased, each run of whitespace replaced by one hyphen, and every character that is
  neither a word character nor a hyphen removed. \<open>headingId\<close> is idempotent,
  \<open>"Hello, World!"\<close> gives \<open>"hello-world"\<close>, and two headings named \<open>"Dup"\<close> both come back,
  in document order, each with the id \<open>"dup"\<close>.
\<close>

theorem heading_id_derivation:
  "(\<forall>h\<in>set (getHeadings md). id' h = headingId (name h))
   \<and> headingId n =
       filter (\<lambda>c. isWordChar c \<or> c = CHR ''-'')
         (replaceRuns isWhiteSpace ''-'' (map toLowerChar (trim n)))
   \<and> headingId (headingId n) = headingId n
   \<and> headingId ''Hello, World!'' = ''hello-world''
   \<and> getHeadings ''# Dup\<newline># Dup'' =
       [\<lparr>id' = ''dup'', level = 1, name = ''Dup''\<rparr>, \<lparr>id' = ''dup'', level = 1, name = ''Dup''\<rparr>]"
proof (intro conjI ballI)
  fix h assume "h \<in> set (getHeadings md)"
  then show "id' h = headingId (name h)"
    using getHeadings_wellFormed by (simp add: wellFormed_def)
next
  show "headingId n =
       filter (\<lambda>c. isWordChar c \<or> c = CHR ''-'')
         (replaceRuns isWhiteSpace ''-'' (map toLowerChar (trim n)))"
    by (simp add: headingId_def replaceRuns_remove toLowerCase_def)
next
  show "headingId (headingId n) = headingId n" by (rule headingId_idem)
next
  show "headingId ''Hello, World!'' = ''hello-world''" by code_simp
next
  show "getHeadings ''# Dup\<newline># Dup'' =
       [\<lparr>id' = ''dup'', level = 1, name = ''Dup''\<rparr>, \<lparr>id' = ''dup'', level = 1, name = ''Dup''\<rparr>]"
    by code_simp
qed

theorem heading_id_derivation_witness:
  "\<lparr>id' = ''hello-world'', level = 2, name = ''Hello, World!''\<rparr>
     \<in> set (getHeadings ''## Hello, World!'')
   \<and> headingId ''Hello, World!'' = ''hello-world''"
proof -
  have g: "getHeadings ''## Hello, World!'' =
      [\<lparr>id' = ''hello-world'', level = 2, name = ''Hello, World!''\<rparr>]"
    by code_simp
  then have m: "\<lparr>id' = ''hello-world'', level = 2, name = ''Hello, World!''\<rparr>
     \<in> set (getHeadings ''## Hello, World!'')" by simp
  from heading_id_derivation [of "''## Hello, World!''"] m
  have "id' \<lparr>id' = ''hello-world'', level = 2, name = ''Hello, World!''\<rparr> =
        headingId (name \<lparr>id' = ''hello-world'', level = 2, name = ''Hello, World!''\<rparr>)"
    by blast
  with m show ?thesis by simp
qed

text \<open>
  C5. Scanning \<open>"```\n# not a heading\n```\n# real\n"\<close> returns exactly one heading, of
  level 1, with name \<open>"real"\<close> and id \<open>"real"\<close>. In general the lines of a fenced region add
  nothing to the result: when the lines of the text are \<open>pre\<close>, a fence line that opens a
  fence (an even number of fence lines comes before it), lines \<open>body\<close> without a fence line,
  and \<open>rest\<close>, the headings returned are those of the text with the lines of \<open>body\<close> left out.
\<close>

theorem fenced_lines_not_returned:
  "getHeadings ''```\<newline># not a heading\<newline>```\<newline># real\<newline>'' =
     [\<lparr>id' = ''real'', level = 1, name = ''real''\<rparr>]
   \<and> (split [CHR 0x0A] md = pre @ fence # body @ rest \<and>
        even (length (filter fenceLine pre)) \<and> fenceLine fence \<and>
        (\<forall>l\<in>set body. \<not> fenceLine l)
        \<longrightarrow> getHeadings md = snd (fold scanLine (pre @ fence # rest) (False, [])))"
proof (intro conjI impI)
  show "getHeadings ''```\<newline># not a heading\<newline>```\<newline># real\<newline>'' =
     [\<lparr>id' = ''real'', level = 1, name = ''real''\<rparr>]"
    by code_simp
next
  assume a: "split [CHR 0x0A] md = pre @ fence # body @ rest \<and>
        even (length (filter fenceLine pre)) \<and> fenceLine fence \<and>
        (\<forall>l\<in>set body. \<not> fenceLine l)"
  then have b: "fold scanLine (pre @ fence # body) (False, []) =
                (True, snd (fold scanLine pre (False, [])))"
    by (intro fold_pre_fence) simp_all
  from a have e: "fold scanLine (pre @ fence # []) (False, []) =
                (True, snd (fold scanLine pre (False, [])))"
    by (intro fold_pre_fence) simp_all
  have "fold scanLine (pre @ fence # body @ rest) (False, []) =
        fold scanLine rest (fold scanLine (pre @ fence # body) (False, []))"
    by simp
  also have "\<dots> = fold scanLine rest (fold scanLine (pre @ fence # []) (False, []))"
    by (simp only: b e)
  also have "\<dots> = fold scanLine (pre @ fence # rest) (False, [])" by simp
  finally show "getHeadings md = snd (fold scanLine (pre @ fence # rest) (False, []))"
    using a by (simp add: getHeadings_def)
qed

theorem fenced_lines_not_returned_witness:
  "split [CHR 0x0A] ''# a\<newline>```js\<newline># b\<newline>## c\<newline>```\<newline># d'' =
     [''# a''] @ ''```js'' # [''# b'', ''## c''] @ [''```'', ''# d'']
   \<and> even (length (filter fenceLine [''# a''])) \<and> fenceLine ''```js''
   \<and> \<not> fenceLine ''# b'' \<and> \<not> fenceLine ''## c''
   \<and> getHeadings ''# a\<newline>```js\<newline># b\<newline>## c\<newline>```\<newline># d'' =
       snd (fold scanLine ([''# a''] @ ''```js'' # [''```'', ''# d'']) (False, []))
   \<and> getHeadings ''# a\<newline>```js\<newline># b\<newline>## c\<newline>```\<newline># d'' =
       [\<lparr>id' = ''a'', level = 1, name = ''a''\<rparr>, \<lparr>id' = ''d'', level = 1, name = ''d''\<rparr>]"
proof -
  have s: "split [CHR 0x0A] ''# a\<newline>```js\<newline># b\<newline>## c\<newline>```\<newline># d'' =
     [''# a''] @ ''```js'' # [''# b'', ''## c''] @ [''```'', ''# d'']" by code_simp
  have e: "even (length (filter fenceLine [''# a'']))" by code_simp
  have f: "fenceLine ''```js''" by code_simp
  have b1: "\<not> fenceLine ''# b''" by code_simp
  have b2: "\<not> fenceLine ''## c''" by code_simp
  have g: "getHeadings ''# a\<newline>```js\<newline># b\<newline>## c\<newline>```\<newline># d'' =
       [\<lparr>id' = ''a'', level = 1, name = ''a''\<rparr>, \<lparr>id' = ''d'', level = 1, name = ''d''\<rparr>]"
    by code_simp
  from b1 b2 have b: "\<forall>l\<in>set [''# b'', ''## c'']. \<not> fenceLine l" by simp
  from fenced_lines_not_returned
    [of "''# a\<newline>```js\<newline># b\<newline>## c\<newline>```\<newline># d''" "[''# a'']" "''```js''"
        "[''# b'', ''## c'']" "[''```'', ''# d'']"] s e f b
  have "getHeadings ''# a\<newline>```js\<newline># b\<newline>## c\<newline>```\<newline># d'' =
       snd (fold scanLine ([''# a''] @ ''```js'' # [''```'', ''# d'']) (False, []))"
    by blast
  with s e f b1 b2 g show ?thesis by blast
qed

text \<open>
  C8. When the number of fence lines of a text is odd, the last fence line is never closed:
  the scanner is inside a fence at every line after it, and the headings returned are
  those of the lines before that fence line. \<open>getHeadings\<close> is a total function into lists
  of headings: there is no error to raise.
\<close>

theorem unterminated_fence:
  assumes "split [CHR 0x0A] md = pre @ fence # post"
    and "odd (length (filter fenceLine (split [CHR 0x0A] md)))"
    and "fenceLine fence"
    and "\<forall>l\<in>set post. \<not> fenceLine l"
  shows "getHeadings md = snd (fold scanLine pre (False, []))
         \<and> (\<forall>n\<le>length post. fst (fold scanLine (pre @ fence # take n post) (False, [])))"
proof -
  from assms(4) have "filter fenceLine post = []" by (simp add: filter_empty_conv)
  with assms(1,2,3) have ev: "even (length (filter fenceLine pre))" by simp
  have "fold scanLine (pre @ fence # post) (False, []) = (True, snd (fold scanLine pre (False, [])))"
    using ev assms(3,4) by (rule fold_pre_fence)
  then have 1: "getHeadings md = snd (fold scanLine pre (False, []))"
    by (simp add: getHeadings_def assms(1))
  have 2: "fst (fold scanLine (pre @ fence # take n post) (False, []))" for n
  proof -
    have "\<forall>l\<in>set (take n post). \<not> fenceLine l" using assms(4) by (meson in_set_takeD)
    with ev assms(3) have "fold scanLine (pre @ fence # take n post) (False, []) =
        (True, snd (fold scanLine pre (False, [])))" by (rule fold_pre_fence)
    then show ?thesis by simp
  qed
  from 1 2 show ?thesis by simp
qed

theorem unterminated_fence_witness:
  "split [CHR 0x0A] ''# a\<newline>```\<newline># b\<newline>## c'' = [''# a''] @ ''```'' # [''# b'', ''## c'']
   \<and> odd (length (filter fenceLine (split [CHR 0x0A] ''# a\<newline>```\<newline># b\<newline>## c'')))
   \<and> fenceLine ''```'' \<and> \<not> fenceLine ''# b'' \<and> \<not> fenceLine ''## c''
   \<and> getHeadings ''# a\<newline>```\<newline># b\<newline>## c'' = snd (fold scanLine [''# a''] (False, []))
   \<and> getHeadings ''# a\<newline>```\<newline># b\<newline>## c'' = [\<lparr>id' = ''a'', level = 1, name = ''a''\<rparr>]
   \<and> fst (fold scanLine ([''# a''] @ ''```'' # take 2 [''# b'', ''## c'']) (False, []))"
proof -
  have s: "split [CHR 0x0A] ''# a\<newline>```\<newline># b\<newline>## c'' = [''# a''] @ ''```'' # [''# b'', ''## c'']"
    by code_simp
  have o: "odd (length (filter fenceLine (split [CHR 0x0A] ''# a\<newline>```\<newline># b\<newline>## c'')))"
    by code_simp
  have f: "fenceLine ''```''" by code_simp
  have b1: "\<not> fenceLine ''# b''" by code_simp
  have b2: "\<not> fenceLine ''## c''" by code_simp
  have g: "getHeadings ''# a\<newline>```\<newline># b\<newline>## c'' = [\<lparr>id' = ''a'', level = 1, name = ''a''\<rparr>]"
    by code_simp
  from b1 b2 have b: "\<forall>l\<in>set [''# b'', ''## c'']. \<not> fenceLine l" by simp
  note inst = unterminated_fence [OF s o f b]
  from inst have 1: "getHeadings ''# a\<newline>```\<newline># b\<newline>## c'' = snd (fold scanLine [''# a''] (False, []))"
    by (rule conjunct1)
  from inst have "\<forall>n\<le>length [''# b'', ''## c'']. fst (fold scanLine ([''# a''] @ ''```'' # take n [''# b'', ''## c'']) (False, []))"
    by (rule conjunct2)
  then have 2: "fst (fold scanLine ([''# a''] @ ''```'' # take 2 [''# b'', ''## c'']) (False, []))"
    by (metis length_Cons list.size(3) numeral_2_eq_2 order_refl)
  from s o f b1 b2 1 g 2 show ?thesis by blast
qed

text \<open>
  C1, as the code has it. In \<open>process\<close> the article does not depend on the schema argument.
  When the text splits into at least three segments and the second one is not empty, the
  document is segment 0, the delimiter, the metadata text, the delimiter and the article,
  in \<open>process\<close> and in \<open>processMarkdown\<close> with a schema. Without a schema \<open>processMarkdown\<close>
  splits nothing off: its article is the whole document.
\<close>

theorem article_split_rule:
  "(process parse gl hl load md s1 = Inr d1 \<and> process parse gl hl load md s2 = Inr d2
      \<longrightarrow> article d1 = article d2)
   \<and> (split ''---'' md = s0 # y # rest \<and> y \<noteq> [] \<and> rest \<noteq> [] \<and>
       process parse gl hl load md s1 = Inr d1
      \<longrightarrow> article d1 = join ''---'' rest \<and> md = s0 @ ''---'' @ y @ ''---'' @ article d1)
   \<and> (split ''---'' md = s0 # y # rest \<and> y \<noteq> [] \<and> rest \<noteq> [] \<and>
       processMarkdown parse c load md shiki (Some sc) = Inr d3
      \<longrightarrow> article d3 = join ''---'' rest \<and> md = s0 @ ''---'' @ y @ ''---'' @ article d3)
   \<and> processMarkdown parse c load md shiki None =
       (case parse (shikiHighlight c shiki) md of
          Inl e \<Rightarrow> Inl (External e)
        | Inr h \<Rightarrow> Inr \<lparr>article = md, headings = getHeadings md, html = h,
                         frontmatter = EmptyObject\<rparr>)"
proof (intro conjI impI)
  assume "process parse gl hl load md s1 = Inr d1 \<and> process parse gl hl load md s2 = Inr d2"
  then show "article d1 = article d2" using process_article by metis
next
  assume a: "split ''---'' md = s0 # y # rest \<and> y \<noteq> [] \<and> rest \<noteq> [] \<and>
       process parse gl hl load md s1 = Inr d1"
  then have "truthy (at (split ''---'' md) 1)" by (simp add: at_def truthy_def)
  with a show 1: "article d1 = join ''---'' rest"
    using process_article [of parse gl hl load md s1 d1] by (simp add: slice_def)
  from a show "md = s0 @ ''---'' @ y @ ''---'' @ article d1"
    unfolding 1 by (intro split_block) simp_all
next
  assume a: "split ''---'' md = s0 # y # rest \<and> y \<noteq> [] \<and> rest \<noteq> [] \<and>
       processMarkdown parse c load md shiki (Some sc) = Inr d3"
  then have "truthy (at (split ''---'' md) 1)" by (simp add: at_def truthy_def)
  with a show 1: "article d3 = join ''---'' rest"
    using processMarkdown_article [of parse c load md shiki "Some sc" d3] by (simp add: slice_def)
  from a show "md = s0 @ ''---'' @ y @ ''---'' @ article d3"
    unfolding 1 by (intro split_block) simp_all
next
  show "processMarkdown parse c load md shiki None =
       (case parse (shikiHighlight c shiki) md of
          Inl e \<Rightarrow> Inl (External e)
        | Inr h \<Rightarrow> Inr \<lparr>article = md, headings = getHeadings md, html = h,
                         frontmatter = EmptyObject\<rparr>)"
    by (rule processMarkdown_no_schema)
qed

theorem article_split_rule_witness:
  "process exampleParse exampleGetLanguage exampleHljs exampleLoad ''---meta---body''
       (None :: (string, string, string) schema option) =
     Inr \<lparr>article = ''body'', headings = [], html = ''body'', frontmatter = Absent\<rparr>
   \<and> process exampleParse exampleGetLanguage exampleHljs exampleLoad ''---meta---body''
       (Some exampleSchema) =
     Inr \<lparr>article = ''body'', headings = [], html = ''body'', frontmatter = Parsed ''meta''\<rparr>
   \<and> article \<lparr>article = ''body'', headings = [], html = ''body'',
                frontmatter = (Absent :: string frontmatterValue)\<rparr> =
     article \<lparr>article = ''body'', headings = [], html = ''body'', frontmatter = Parsed ''meta''\<rparr>
   \<and> split ''---'' ''---meta---body'' = [] # ''meta'' # [''body'']
   \<and> processMarkdown exampleParse exampleCodeToHtml exampleLoad ''---meta---body'' None
       (Some exampleSchema) =
     Inr \<lparr>article = ''body'', headings = [], html = ''body'', frontmatter = Parsed ''meta''\<rparr>
   \<and> ''---meta---body'' = [] @ ''---'' @ ''meta'' @ ''---'' @
       article \<lparr>article = ''body'', headings = [], html = ''body'', frontmatter = Parsed ''meta''\<rparr>"
proof -
  have s: "split ''---'' ''---meta---body'' = [] # ''meta'' # [''body'']" by code_simp
  have n: "''meta'' \<noteq> []" "[''body''] \<noteq> []" by simp_all
  note inst = article_split_rule
    [of exampleParse exampleGetLanguage exampleHljs exampleLoad "''---meta---body''"
        None "\<lparr>article = ''body'', headings = [], html = ''body'', frontmatter = Absent\<rparr>"
        "Some exampleSchema"
        "\<lparr>article = ''body'', headings = [], html = ''body'', frontmatter = Parsed ''meta''\<rparr>"
        "[]" "''meta''" "[''body'']" exampleCodeToHtml None exampleSchema
        "\<lparr>article = ''body'', headings = [], html = ''body'', frontmatter = Parsed ''meta''\<rparr>"]
  from inst example_process_none example_process_schema
  have 1: "article \<lparr>article = ''body'', headings = [], html = ''body'',
                frontmatter = (Absent :: string frontmatterValue)\<rparr> =
     article \<lparr>article = ''body'', headings = [], html = ''body'', frontmatter = Parsed ''meta''\<rparr>"
    by blast
  from inst s n example_processMarkdown_schema
  have 2: "''---meta---body'' = [] @ ''---'' @ ''meta'' @ ''---'' @
       article \<lparr>article = ''body'', headings = [], html = ''body'', frontmatter = Parsed ''meta''\<rparr>"
    by blast
  from example_process_none example_process_schema 1 s example_processMarkdown_schema 2
  show ?thesis by blast
qed

text \<open>
  C1 fails as stated: \<open>processMarkdown\<close> without a schema returns \<open>"---meta---body"\<close> whole
  as the article, and \<open>"body"\<close> with a schema.
\<close>

theorem article_split_counterexample:
  "processMarkdown exampleParse exampleCodeToHtml exampleLoad ''---meta---body'' None
     (None :: (string, string, string) schema option) =
     Inr \<lparr>article = ''---meta---body'', headings = [], html = ''---meta---body'',
           frontmatter = EmptyObject\<rparr>
   \<and> processMarkdown exampleParse exampleCodeToHtml exampleLoad ''---meta---body'' None
       (Some exampleSchema) =
     Inr \<lparr>article = ''body'', headings = [], html = ''body'', frontmatter = Parsed ''meta''\<rparr>"
  using example_processMarkdown_none example_processMarkdown_schema by blast

text \<open>
  C2, as the code has it. When the second segment is missing or empty and a schema is
  supplied, \<open>process\<close> returns no result: once the renderer has returned it fails with
  \<open>NoYamlFound\<close>, which is not the validation error. \<open>processMarkdown\<close> has no such error: it
  returns the whole document as the article and \<open>{}\<close> as the frontmatter.
\<close>

theorem missing_metadata:
  "\<not> truthy (at (split ''---'' md) 1) \<longrightarrow>
     process parse gl hl load md (Some sc) =
       (case parse (hljsHighlight gl hl) md of
          Inl e \<Rightarrow> Inl (External e)
        | Inr h \<Rightarrow> Inl NoYamlFound)
     \<and> (NoYamlFound :: ('i, 'x) error) \<noteq> InvalidFrontmatter i
     \<and> processMarkdown parse c load md shiki (Some sc) =
       (case parse (shikiHighlight c shiki) md of
          Inl e \<Rightarrow> Inl (External e)
        | Inr h \<Rightarrow> Inr \<lparr>article = md, headings = getHeadings md, html = h,
                         frontmatter = EmptyObject\<rparr>)"
  by (simp add: process_no_yaml processMarkdown_no_yaml)

theorem missing_metadata_witness:
  "\<not> truthy (at (split ''---'' ''body'') 1)
   \<and> process exampleParse exampleGetLanguage exampleHljs exampleLoad ''body''
       (Some exampleSchema) = Inl NoYamlFound
   \<and> processMarkdown exampleParse exampleCodeToHtml exampleLoad ''body'' None
       (Some exampleSchema) =
     Inr \<lparr>article = ''body'', headings = [], html = ''body'', frontmatter = EmptyObject\<rparr>"
proof -
  have t: "\<not> truthy (at (split ''---'' ''body'') 1)" by code_simp
  have g: "getHeadings ''body'' = []" by code_simp
  from missing_metadata
    [of "''body''" exampleParse exampleGetLanguage exampleHljs exampleLoad exampleSchema
        "Some ''first issue''" exampleCodeToHtml None] t
  show ?thesis by (simp add: exampleParse_def g)
qed

text \<open>
  C2 fails as stated: \<open>processMarkdown\<close> with a schema, on a document without a metadata
  block, returns a result whose frontmatter is \<open>{}\<close>.
\<close>

theorem missing_metadata_counterexample:
  "\<not> truthy (at (split ''---'' ''# Title'') 1)
   \<and> processMarkdown exampleParse exampleCodeToHtml exampleLoad ''# Title'' None
       (Some exampleSchema) =
     Inr \<lparr>article = ''# Title'',
           headings = [\<lparr>id' = ''title'', level = 1, name = ''Title''\<rparr>],
           html = ''# Title'', frontmatter = EmptyObject\<rparr>"
proof -
  have t: "\<not> truthy (at (split ''---'' ''# Title'') 1)" by code_simp
  have g: "getHeadings ''# Title'' = [\<lparr>id' = ''title'', level = 1, name = ''Title''\<rparr>]"
    by code_simp
  from t show ?thesis by (simp add: processMarkdown_no_yaml exampleParse_def g)
qed

text \<open>
  C3. The text \<open>"intro---rest"\<close> holds the delimiter once. \<open>split\<close> gives two segments, the
  second one is taken as the metadata text, and the article is the join of no segment at
  all: the empty string, not the document. \<open>processMarkdown\<close> does the same when it is
  given a schema.
\<close>

theorem single_delimiter_empties_article:
  "split ''---'' ''intro---rest'' = [''intro'', ''rest'']
   \<and> process parse gl hl load ''intro---rest'' None =
       (case parse (hljsHighlight gl hl) [] of
          Inl e \<Rightarrow> Inl (External e)
        | Inr h \<Rightarrow> Inr \<lparr>article = [], headings = [], html = h, frontmatter = Absent\<rparr>)
   \<and> process exampleParse exampleGetLanguage exampleHljs exampleLoad ''intro---rest''
         (None :: (string, string, string) schema option) =
       Inr \<lparr>article = [], headings = [], html = [], frontmatter = Absent\<rparr>
   \<and> processMarkdown exampleParse exampleCodeToHtml exampleLoad ''intro---meta'' None
         (Some exampleSchema) =
       Inr \<lparr>article = [], headings = [], html = [], frontmatter = Parsed ''meta''\<rparr>"
proof (intro conjI)
  show s: "split ''---'' ''intro---rest'' = [''intro'', ''rest'']" by code_simp
  have s2: "split ''---'' ''intro---meta'' = [''intro'', ''meta'']" by code_simp
  have g: "getHeadings [] = []" by code_simp
  show "process parse gl hl load ''intro---rest'' None =
       (case parse (hljsHighlight gl hl) [] of
          Inl e \<Rightarrow> Inl (External e)
        | Inr h \<Rightarrow> Inr \<lparr>article = [], headings = [], html = h, frontmatter = Absent\<rparr>)"
    unfolding process_def s by (simp add: at_def truthy_def slice_def g Let_def split: sum.splits)
  show "process exampleParse exampleGetLanguage exampleHljs exampleLoad ''intro---rest''
         (None :: (string, string, string) schema option) =
       Inr \<lparr>article = [], headings = [], html = [], frontmatter = Absent\<rparr>"
    unfolding process_def s by (simp add: at_def truthy_def slice_def g exampleParse_def Let_def)
  show "processMarkdown exampleParse exampleCodeToHtml exampleLoad ''intro---meta'' None
         (Some exampleSchema) =
       Inr \<lparr>article = [], headings = [], html = [], frontmatter = Parsed ''meta''\<rparr>"
    unfolding processMarkdown_def s2
    by (simp add: at_def truthy_def slice_def g exampleParse_def getFrontmatter_def
        exampleLoad_def exampleSchema_def Let_def)
qed

text \<open>
  C4, as the code has it. The callback of \<open>process\<close> hands a language that \<open>highlight.js\<close>
  does not know to the highlighter as \<open>"plaintext"\<close>, except \<open>"svelte"\<close>, which becomes
  \<open>"html"\<close>; a known language is kept. The callback of \<open>processMarkdown\<close> passes the declared
  language on as it is, under the caller's own options when there are some; its result is
  whatever \<open>codeToHtml\<close> returns for it.
\<close>

theorem highlight_language_choice:
  "(\<not> getLanguage lang \<and> lang \<noteq> ''svelte''
      \<longrightarrow> hljsHighlight getLanguage highlight code lang = highlight code ''plaintext'')
   \<and> (\<not> getLanguage ''svelte''
      \<longrightarrow> hljsHighlight getLanguage highlight code ''svelte'' = highlight code ''html'')
   \<and> (getLanguage lang
      \<longrightarrow> hljsHighlight getLanguage highlight code lang = highlight code lang)
   \<and> shikiHighlight codeToHtml None code lang =
       codeToHtml code [''lang'' \<mapsto> Str lang, ''theme'' \<mapsto> Str ''github-dark-default'']
   \<and> shikiHighlight codeToHtml (Some opts) code lang =
       codeToHtml code ([''lang'' \<mapsto> Str lang, ''theme'' \<mapsto> Str ''github-dark-default''] ++ opts)"
  by (simp add: hljsHighlight_def shikiHighlight_def objectAssign_def)

theorem highlight_language_choice_witness:
  "\<not> exampleGetLanguage ''rust''
   \<and> hljsHighlight exampleGetLanguage exampleHljs ''x'' ''rust'' = exampleHljs ''x'' ''plaintext''
   \<and> \<not> exampleGetLanguage ''svelte''
   \<and> hljsHighlight exampleGetLanguage exampleHljs ''x'' ''svelte'' = exampleHljs ''x'' ''html''
   \<and> exampleGetLanguage ''javascript''
   \<and> hljsHighlight exampleGetLanguage exampleHljs ''x'' ''javascript'' =
       exampleHljs ''x'' ''javascript''"
proof -
  have r: "\<not> exampleGetLanguage ''rust''" "''rust'' \<noteq> ''svelte''"
    by (simp_all add: exampleGetLanguage_def)
  have s: "\<not> exampleGetLanguage ''svelte''" by (simp add: exampleGetLanguage_def)
  have j: "exampleGetLanguage ''javascript''" by (simp add: exampleGetLanguage_def)
  from highlight_language_choice [of exampleGetLanguage "''rust''" exampleHljs "''x''"] r s
  have 1: "hljsHighlight exampleGetLanguage exampleHljs ''x'' ''rust'' = exampleHljs ''x'' ''plaintext''"
    and 2: "hljsHighlight exampleGetLanguage exampleHljs ''x'' ''svelte'' = exampleHljs ''x'' ''html''"
    by blast+
  from highlight_language_choice [of exampleGetLanguage "''javascript''" exampleHljs "''x''"] j
  have 3: "hljsHighlight exampleGetLanguage exampleHljs ''x'' ''javascript'' =
       exampleHljs ''x'' ''javascript''"
    by blast
  from r s j 1 2 3 show ?thesis by blast
qed

text \<open>
  C4 fails as stated: for the unknown language \<open>"svelte"\<close> the callback of \<open>process\<close> asks
  for \<open>"html"\<close> and not for \<open>"plaintext"\<close>, and the callback of \<open>processMarkdown\<close> fails when
  the highlighter fails.
\<close>

theorem highlight_language_choice_counterexample:
  "\<not> exampleGetLanguage ''svelte''
   \<and> hljsHighlight exampleGetLanguage exampleHljs ''x'' ''svelte'' = Inr ''html:x''
   \<and> exampleHljs ''x'' ''plaintext'' = Inr ''plaintext:x''
   \<and> shikiHighlight exampleCodeToHtml None ''x'' ''svelte'' = Inl ()"
  by (simp add: exampleGetLanguage_def hljsHighlight_def exampleHljs_def shikiHighlight_def
      objectAssign_def exampleCodeToHtml_def)

text \<open>
  C7. When the loader decodes the metadata text and the schema reports the issues
  \<open>i # others\<close>, \<open>getFrontmatter\<close> fails with \<open>InvalidFrontmatter\<close> carrying \<open>i\<close>, the first
  issue, and nothing of \<open>others\<close>. So does \<open>processMarkdown\<close>, which validates before it
  renders; \<open>process\<close> renders first, and fails with that same error once the renderer has
  returned. The result is a function of the input.
\<close>

theorem validation_error_first_issue:
  "(load yaml = Inr v \<and> schema v = Inl (i # others)
      \<longrightarrow> getFrontmatter load yaml schema = Inl (InvalidFrontmatter (Some i)))
   \<and> (at (split ''---'' md) 1 = Some yaml \<and> yaml \<noteq> [] \<and> load yaml = Inr v \<and>
       schema v = Inl (i # others)
      \<longrightarrow> processMarkdown parse c load md shiki (Some schema) = Inl (InvalidFrontmatter (Some i))
        \<and> process parse gl hl load md (Some schema) =
            (case parse (hljsHighlight gl hl) (join ''---'' (slice 2 (split ''---'' md))) of
               Inl e \<Rightarrow> Inl (External e)
             | Inr h \<Rightarrow> Inl (InvalidFrontmatter (Some i))))"
proof (intro conjI impI)
  assume "load yaml = Inr v \<and> schema v = Inl (i # others)"
  then show "getFrontmatter load yaml schema = Inl (InvalidFrontmatter (Some i))"
    by (simp add: getFrontmatter_def at_def)
next
  assume a: "at (split ''---'' md) 1 = Some yaml \<and> yaml \<noteq> [] \<and> load yaml = Inr v \<and>
       schema v = Inl (i # others)"
  then have f: "getFrontmatter load yaml schema = Inl (InvalidFrontmatter (Some i))"
    by (simp add: getFrontmatter_def at_def)
  from a have t: "truthy (at (split ''---'' md) 1)" by (simp add: truthy_def)
  from a f t show "processMarkdown parse c load md shiki (Some schema) = Inl (InvalidFrontmatter (Some i))"
    by (simp add: processMarkdown_def Let_def)
  from a f t show "process parse gl hl load md (Some schema) =
            (case parse (hljsHighlight gl hl) (join ''---'' (slice 2 (split ''---'' md))) of
               Inl e \<Rightarrow> Inl (External e)
             | Inr h \<Rightarrow> Inl (InvalidFrontmatter (Some i)))"
    by (simp add: process_def Let_def split: sum.splits)
qed

theorem validation_error_first_issue_witness:
  "exampleLoad ''draft'' = Inr ''draft''
   \<and> exampleSchema ''draft'' = Inl (''first issue'' # [''second issue''])
   \<and> getFrontmatter exampleLoad ''draft'' exampleSchema = Inl (InvalidFrontmatter (Some ''first issue''))
   \<and> at (split ''---'' ''---draft---body'') 1 = Some ''draft''
   \<and> processMarkdown exampleParse exampleCodeToHtml exampleLoad ''---draft---body'' None
        (Some exampleSchema) = Inl (InvalidFrontmatter (Some ''first issue''))
   \<and> process exampleParse exampleGetLanguage exampleHljs exampleLoad ''---draft---body''
        (Some exampleSchema) = Inl (InvalidFrontmatter (Some ''first issue''))"
proof -
  have l: "exampleLoad ''draft'' = Inr ''draft''" by (simp add: exampleLoad_def)
  have v: "exampleSchema ''draft'' = Inl (''first issue'' # [''second issue''])"
    by (simp add: exampleSchema_def)
  have y: "at (split ''---'' ''---draft---body'') 1 = Some ''draft''" by code_simp
  have n: "''draft'' \<noteq> []" by simp
  have j: "join ''---'' (slice 2 (split ''---'' ''---draft---body'')) = ''body''" by code_simp
  note inst = validation_error_first_issue
    [of exampleLoad "''draft''" "''draft''" exampleSchema "''first issue''" "[''second issue'']"
        "''---draft---body''" exampleParse exampleCodeToHtml None exampleGetLanguage exampleHljs]
  from inst l v have 1:
    "getFrontmatter exampleLoad ''draft'' exampleSchema = Inl (InvalidFrontmatter (Some ''first issue''))"
    by blast
  from inst y n l v have 2:
    "processMarkdown exampleParse exampleCodeToHtml exampleLoad ''---draft---body'' None
        (Some exampleSchema) = Inl (InvalidFrontmatter (Some ''first issue''))"
    by blast
  from inst y n l v have
    "process exampleParse exampleGetLanguage exampleHljs exampleLoad ''---draft---body''
        (Some exampleSchema) =
       (case exampleParse (hljsHighlight exampleGetLanguage exampleHljs)
               (join ''---'' (slice 2 (split ''---'' ''---draft---body''))) of
               Inl e \<Rightarrow> Inl (External e)
             | Inr h \<Rightarrow> Inl (InvalidFrontmatter (Some ''first issue'')))"
    by blast
  then have 3: "process exampleParse exampleGetLanguage exampleHljs exampleLoad ''---draft---body''
        (Some exampleSchema) = Inl (InvalidFrontmatter (Some ''first issue''))"
    by (simp add: exampleParse_def)
  from l v 1 y 2 3 show ?thesis by blast
qed

text \<open>
  C10. On \<open>"intro---meta---body"\<close> the text before the first delimiter is lost: the metadata
  text is \<open>"meta"\<close>, the article is \<open>"body"\<close>, and \<open>"intro"\<close> occurs in neither, in \<open>process\<close>
  (with or without a schema) and in \<open>processMarkdown\<close> with a schema.
\<close>

theorem first_segment_discarded:
  "split ''---'' ''intro---meta---body'' = [''intro'', ''meta'', ''body'']
   \<and> process parse gl hl load ''intro---meta---body'' None =
       (case parse (hljsHighlight gl hl) ''body'' of
          Inl e \<Rightarrow> Inl (External e)
        | Inr h \<Rightarrow> Inr \<lparr>article = ''body'', headings = [], html = h, frontmatter = Absent\<rparr>)
   \<and> process exampleParse exampleGetLanguage exampleHljs exampleLoad
         ''intro---meta---body'' (Some exampleSchema) =
       Inr \<lparr>article = ''body'', headings = [], html = ''body'', frontmatter = Parsed ''meta''\<rparr>
   \<and> processMarkdown exampleParse exampleCodeToHtml exampleLoad
         ''intro---meta---body'' None (Some exampleSchema) =
       Inr \<lparr>article = ''body'', headings = [], html = ''body'', frontmatter = Parsed ''meta''\<rparr>
   \<and> (\<nexists>xs ys. ''meta'' = xs @ ''intro'' @ ys) \<and> (\<nexists>xs ys. ''body'' = xs @ ''intro'' @ ys)"
proof (intro conjI)
  show s: "split ''---'' ''intro---meta---body'' = [''intro'', ''meta'', ''body'']" by code_simp
  have g: "getHeadings ''body'' = []" by code_simp
  show "process parse gl hl load ''intro---meta---body'' None =
       (case parse (hljsHighlight gl hl) ''body'' of
          Inl e \<Rightarrow> Inl (External e)
        | Inr h \<Rightarrow> Inr \<lparr>article = ''body'', headings = [], html = h, frontmatter = Absent\<rparr>)"
    unfolding process_def s by (simp add: at_def truthy_def slice_def g Let_def split: sum.splits)
  show "process exampleParse exampleGetLanguage exampleHljs exampleLoad
         ''intro---meta---body'' (Some exampleSchema) =
       Inr \<lparr>article = ''body'', headings = [], html = ''body'', frontmatter = Parsed ''meta''\<rparr>"
    unfolding process_def s
    by (simp add: at_def truthy_def slice_def g exampleParse_def getFrontmatter_def
        exampleLoad_def exampleSchema_def Let_def)
  show "processMarkdown exampleParse exampleCodeToHtml exampleLoad
         ''intro---meta---body'' None (Some exampleSchema) =
       Inr \<lparr>article = ''body'', headings = [], html = ''body'', frontmatter = Parsed ''meta''\<rparr>"
    unfolding processMarkdown_def s
    by (simp add: at_def truthy_def slice_def g exampleParse_def getFrontmatter_def
        exampleLoad_def exampleSchema_def Let_def)
  show "\<nexists>xs ys. ''meta'' = xs @ ''intro'' @ ys"
  proof
    assume "\<exists>xs ys. ''meta'' = xs @ ''intro'' @ ys"
    then obtain xs ys where "''meta'' = xs @ ''intro'' @ ys" by blast
    then have "length ''meta'' = length (xs @ ''intro'' @ ys)" by (rule arg_cong)
    then show False by simp
  qed
  show "\<nexists>xs ys. ''body'' = xs @ ''intro'' @ ys"
  proof
    assume "\<exists>xs ys. ''body'' = xs @ ''intro'' @ ys"
    then obtain xs ys where "''body'' = xs @ ''intro'' @ ys" by blast
    then have "length ''body'' = length (xs @ ''intro'' @ ys)" by (rule arg_cong)
    then show False by simp
  qed
qed

end
